theory Spec2Isabelle
  imports Main
begin

section \<open>Values, rows, requests and responses\<close>

text \<open>
  The repository is two Django REST framework views: \<^verbatim>\<open>tasks/views.py\<close>
  (\<^verbatim>\<open>IsOwnerPermission\<close>, \<^verbatim>\<open>TaskViewSet\<close>) and \<^verbatim>\<open>users/views.py\<close>
  (\<^verbatim>\<open>RegisterView\<close>). The views are class attributes and two overridden hooks on top
  of the framework's generic views, so the embedding has two layers: the attributes and
  hooks written in the repository, and the methods the classes inherit
  (\<^verbatim>\<open>APIView.initial\<close>, \<^verbatim>\<open>GenericAPIView.get_object\<close>, the model mixins, the filter
  backends), each written out as the function the view runs.

  Python values that travel through keyword arguments, request bodies and responses.
  A date is its ordinal; a user reference is the user's primary key;
  \<^verbatim>\<open>AnonymousUser\<close> is what \<^verbatim>\<open>request.user\<close> holds without a credential.
\<close>

type_synonym date = nat

datatype val = VNone | VBool bool | VInt nat | VStr string | VDate date | VUser nat
  | VAnonymousUser

text \<open>A Python \<^verbatim>\<open>dict\<close> with string keys: \<^verbatim>\<open>request.data\<close>, \<^verbatim>\<open>validated_data\<close>,
  keyword arguments, parsed query parameters.\<close>

type_synonym kwargs = "string \<rightharpoonup> val"

text \<open>Field errors of a validator: field name and reasons.\<close>

type_synonym errors = "(string \<times> string list) list"

text \<open>
  Modelled from the spec: \<^verbatim>\<open>tasks/models.py\<close> (class \<^verbatim>\<open>Task\<close>) is not among the
  sources. Section 3 of the specification gives its fields: identifier, owner (the view
  calls the field \<^verbatim>\<open>user\<close>), title, description (optional string), due date (optional)
  and the completion flag (default false).
\<close>

record task =
  task_id :: nat
  user :: nat
  title :: string
  description :: string
  due_date :: "date option"
  completed :: bool

text \<open>
  Modelled from the spec: the user model (identifier, username, email, password kept
  only in hashed form).
\<close>

record user_row =
  user_id :: nat
  username :: string
  email :: string
  password :: string

text \<open>The database: both tables in the order their rows are returned, and the next
  primary key of each.\<close>

record db =
  tasks :: "task list"
  users :: "user_row list"
  next_task_id :: nat
  next_user_id :: nat

text \<open>A request as the views read it: \<^verbatim>\<open>request.user\<close> (\<open>None\<close> is the anonymous
  user), \<^verbatim>\<open>request.data\<close> and \<^verbatim>\<open>request.query_params\<close> (values already parsed to
  the type of the field they filter).\<close>

record request =
  request_user :: "nat option"
  data :: kwargs
  query_params :: kwargs

datatype exn = Http404 | NotAuthenticated | PermissionDenied | ValidationError errors
  | AssertionError | TypeError | ValueError | IntegrityError | MultipleObjectsReturned

datatype content = NoContent | Dict "(string \<times> val) list" | DictList "(string \<times> val) list list"

datatype response = Response nat content

definition HTTP_200_OK :: nat where "HTTP_200_OK = 200"
definition HTTP_201_CREATED :: nat where "HTTP_201_CREATED = 201"
definition HTTP_204_NO_CONTENT :: nat where "HTTP_204_NO_CONTENT = 204"

section \<open>View classes and permissions\<close>

datatype permission = AllowAny | IsAuthenticated | IsOwnerPermission

datatype filter_backend = DjangoFilterBackend | SearchFilter

text \<open>
  The class attributes a generic view reads. \<^verbatim>\<open>GenericAPIView\<close> declares
  \<^verbatim>\<open>serializer_class = None\<close>; a subclass that assigns another name adds an attribute
  and leaves that one as inherited. The last field is the attribute
  \<^verbatim>\<open>tasks/views.py\<close> line 13 assigns.
\<close>

record 's view =
  serializer_class :: "'s option"
  permission_classes :: "permission list"
  filter_backends :: "filter_backend list"
  filterset_fields :: "string list"
  search_fields :: "string list"
  serialzer_class :: "'s option"

text \<open>\<^verbatim>\<open>rest_framework.permissions\<close>: the base class allows everything.\<close>

definition BasePermission_has_permission :: "request \<Rightarrow> 's view \<Rightarrow> bool" where
  "BasePermission_has_permission r v = True"

definition BasePermission_has_object_permission :: "request \<Rightarrow> 's view \<Rightarrow> 'o \<Rightarrow> bool" where
  "BasePermission_has_object_permission r v obj = True"

definition IsAuthenticated_has_permission :: "request \<Rightarrow> 's view \<Rightarrow> bool" where
  "IsAuthenticated_has_permission r v = (request_user r \<noteq> None)"

text \<open>\<^verbatim>\<open>tasks/views.py\<close> lines 8 to 10: the override calls the inherited method.\<close>

definition IsOwnerPermission_has_object_permission :: "request \<Rightarrow> 's view \<Rightarrow> 'o \<Rightarrow> bool" where
  "IsOwnerPermission_has_object_permission r v obj =
     BasePermission_has_object_permission r v obj"

text \<open>Method lookup on a permission class.\<close>

fun has_permission :: "permission \<Rightarrow> request \<Rightarrow> 's view \<Rightarrow> bool" where
  "has_permission AllowAny r v = True"
| "has_permission IsAuthenticated r v = IsAuthenticated_has_permission r v"
| "has_permission IsOwnerPermission r v = BasePermission_has_permission r v"

fun has_object_permission :: "permission \<Rightarrow> request \<Rightarrow> 's view \<Rightarrow> 'o \<Rightarrow> bool" where
  "has_object_permission AllowAny r v obj = BasePermission_has_object_permission r v obj"
| "has_object_permission IsAuthenticated r v obj = BasePermission_has_object_permission r v obj"
| "has_object_permission IsOwnerPermission r v obj =
     IsOwnerPermission_has_object_permission r v obj"

text \<open>\<^verbatim>\<open>APIView.permission_denied\<close>: a request without a successful authenticator
  is answered by \<^verbatim>\<open>NotAuthenticated\<close>, any other by \<^verbatim>\<open>PermissionDenied\<close>.\<close>

definition permission_denied :: "request \<Rightarrow> exn" where
  "permission_denied r = (if request_user r = None then NotAuthenticated else PermissionDenied)"

definition check_permissions :: "'s view \<Rightarrow> request \<Rightarrow> exn + unit" where
  "check_permissions v r =
     (if list_all (\<lambda>p. has_permission p r v) (permission_classes v) then Inr ()
      else Inl (permission_denied r))"

definition check_object_permissions :: "'s view \<Rightarrow> request \<Rightarrow> 'o \<Rightarrow> exn + unit" where
  "check_object_permissions v r obj =
     (if list_all (\<lambda>p. has_object_permission p r v obj) (permission_classes v) then Inr ()
      else Inl (permission_denied r))"

text \<open>\<^verbatim>\<open>GenericAPIView.get_serializer_class\<close>: asserts that the attribute
  \<^verbatim>\<open>serializer_class\<close> is not \<^verbatim>\<open>None\<close>.\<close>

definition get_serializer_class :: "'s view \<Rightarrow> exn + 's" where
  "get_serializer_class v =
     (case serializer_class v of None \<Rightarrow> Inl AssertionError | Some s \<Rightarrow> Inr s)"

section \<open>The task table and its serializer\<close>

text \<open>
  \<^verbatim>\<open>tasks/serializers.py\<close> is not among the sources: the serializer class is a
  parameter, given by its validation (request data, the \<^verbatim>\<open>partial\<close> flag and the
  instance being updated) and its output representation. Saving is the framework's
  \<^verbatim>\<open>ModelSerializer\<close>.
\<close>

record serializer =
  run_validation :: "kwargs \<Rightarrow> bool \<Rightarrow> task option \<Rightarrow> errors + kwargs"
  to_representation :: "task \<Rightarrow> (string \<times> val) list"

text \<open>A serializer object after \<^verbatim>\<open>is_valid\<close>.\<close>

record bound_serializer =
  bound_instance :: "task option"
  validated_data :: kwargs

definition str_of :: "val option \<Rightarrow> string" where
  "str_of x = (case x of Some (VStr s) \<Rightarrow> s | _ \<Rightarrow> [])"

text \<open>
  Modelled from the spec: the defaults of the absent \<^verbatim>\<open>Task\<close> model (section 3: the
  completion flag defaults to false, description and due date are optional).
  \<^verbatim>\<open>Task.objects.create(**kwargs)\<close> stores one new row with the next primary key; the
  owner is a required reference to a user.
\<close>

definition Task_objects_create :: "kwargs \<Rightarrow> db \<Rightarrow> exn + (task \<times> db)" where
  "Task_objects_create kw st =
     (case kw ''user'' of
        None \<Rightarrow> Inl IntegrityError
      | Some (VUser u) \<Rightarrow>
          (let t = \<lparr>task_id = next_task_id st, user = u,
                    title = str_of (kw ''title''),
                    description = str_of (kw ''description''),
                    due_date = (case kw ''due_date'' of Some (VDate d) \<Rightarrow> Some d | _ \<Rightarrow> None),
                    completed = (case kw ''completed'' of Some (VBool b) \<Rightarrow> b | _ \<Rightarrow> False)\<rparr>
           in Inr (t, st\<lparr>tasks := tasks st @ [t], next_task_id := Suc (next_task_id st)\<rparr>))
      | Some _ \<Rightarrow> Inl ValueError)"

text \<open>\<^verbatim>\<open>ModelSerializer.update\<close>: every validated attribute is set on the instance,
  then the row with the instance's primary key is written.\<close>

definition set_attrs :: "task \<Rightarrow> kwargs \<Rightarrow> exn + task" where
  "set_attrs i kw =
     (case (case kw ''user'' of
              Some (VUser u) \<Rightarrow> Inr (i\<lparr>user := u\<rparr>)
            | Some _ \<Rightarrow> Inl ValueError
            | None \<Rightarrow> Inr i) of
        Inl e \<Rightarrow> Inl e
      | Inr i1 \<Rightarrow>
          Inr (i1\<lparr>title := (case kw ''title'' of Some (VStr s) \<Rightarrow> s | _ \<Rightarrow> title i1),
                  description := (case kw ''description'' of Some (VStr s) \<Rightarrow> s
                                   | _ \<Rightarrow> description i1),
                  due_date := (case kw ''due_date'' of Some (VDate d) \<Rightarrow> Some d
                                | Some VNone \<Rightarrow> None | _ \<Rightarrow> due_date i1),
                  completed := (case kw ''completed'' of Some (VBool b) \<Rightarrow> b
                                 | _ \<Rightarrow> completed i1)\<rparr>))"

definition ModelSerializer_update :: "task \<Rightarrow> kwargs \<Rightarrow> db \<Rightarrow> exn + (task \<times> db)" where
  "ModelSerializer_update i kw st =
     (case set_attrs i kw of
        Inl e \<Rightarrow> Inl e
      | Inr t \<Rightarrow>
          Inr (t, st\<lparr>tasks := map (\<lambda>x. if task_id x = task_id t then t else x) (tasks st)\<rparr>))"

text \<open>\<^verbatim>\<open>BaseSerializer.save(**kwargs)\<close>: the keyword arguments override the validated
  data; an unbound serializer creates, a bound one updates.\<close>

definition save :: "bound_serializer \<Rightarrow> kwargs \<Rightarrow> db \<Rightarrow> exn + (task \<times> db)" where
  "save ser kw st =
     (let vd = validated_data ser ++ kw in
      case bound_instance ser of
        None \<Rightarrow> Task_objects_create vd st
      | Some i \<Rightarrow> ModelSerializer_update i vd st)"

section \<open>Filter backends\<close>

text \<open>Reading a model field by name, as the filter backends do.\<close>

definition task_field :: "string \<Rightarrow> task \<Rightarrow> val option" where
  "task_field f t =
     (if f = ''id'' then Some (VInt (task_id t))
      else if f = ''user'' then Some (VUser (user t))
      else if f = ''title'' then Some (VStr (title t))
      else if f = ''description'' then Some (VStr (description t))
      else if f = ''due_date'' then Some (case due_date t of None \<Rightarrow> VNone | Some d \<Rightarrow> VDate d)
      else if f = ''completed'' then Some (VBool (completed t))
      else None)"

text \<open>\<^verbatim>\<open>DjangoFilterBackend\<close> with a list of \<^verbatim>\<open>filterset_fields\<close>: an exact-match
  filter for each listed field whose query parameter is given.\<close>

definition exact_match :: "kwargs \<Rightarrow> task \<Rightarrow> string \<Rightarrow> bool" where
  "exact_match params t f =
     (case params f of None \<Rightarrow> True | Some x \<Rightarrow> task_field f t = Some x)"

definition DjangoFilterBackend_filter_queryset ::
  "request \<Rightarrow> task list \<Rightarrow> 's view \<Rightarrow> task list" where
  "DjangoFilterBackend_filter_queryset r qs v =
     filter (\<lambda>t. list_all (exact_match (query_params r) t) (filterset_fields v)) qs"

text \<open>
  \<^verbatim>\<open>SearchFilter\<close>: the \<^verbatim>\<open>search\<close> parameter is split at white space and commas;
  a row is kept when every term occurs, ignoring case (\<^verbatim>\<open>icontains\<close>), in at least one
  of the \<^verbatim>\<open>search_fields\<close>.
\<close>

definition is_sep :: "char \<Rightarrow> bool" where
  "is_sep c = (c = CHR '' '' \<or> c = CHR '','' \<or> c = CHR 0x09 \<or> c = CHR 0x0A \<or> c = CHR 0x0D)"

fun split_terms :: "string \<Rightarrow> string \<Rightarrow> string list" where
  "split_terms acc [] = (if acc = [] then [] else [rev acc])"
| "split_terms acc (c # cs) =
     (if is_sep c then (if acc = [] then split_terms [] cs else rev acc # split_terms [] cs)
      else split_terms (c # acc) cs)"

definition get_search_terms :: "request \<Rightarrow> string list" where
  "get_search_terms r =
     (case query_params r ''search'' of Some (VStr s) \<Rightarrow> split_terms [] s | _ \<Rightarrow> [])"

definition lower :: "char \<Rightarrow> char" where
  "lower c =
     (case map_of (zip ''ABCDEFGHIJKLMNOPQRSTUVWXYZ'' ''abcdefghijklmnopqrstuvwxyz'') c of
        Some l \<Rightarrow> l
      | None \<Rightarrow> c)"

fun startswith :: "string \<Rightarrow> string \<Rightarrow> bool" where
  "startswith s [] = True"
| "startswith [] (p # ps) = False"
| "startswith (c # cs) (p # ps) = (c = p \<and> startswith cs ps)"

fun contains :: "string \<Rightarrow> string \<Rightarrow> bool" where
  "contains [] sub = (sub = [])"
| "contains (c # cs) sub = (startswith (c # cs) sub \<or> contains cs sub)"

definition icontains :: "string \<Rightarrow> string \<Rightarrow> bool" where
  "icontains s sub = contains (map lower s) (map lower sub)"

definition term_matches :: "string list \<Rightarrow> task \<Rightarrow> string \<Rightarrow> bool" where
  "term_matches fs t w =
     list_ex (\<lambda>f. case task_field f t of Some (VStr s) \<Rightarrow> icontains s w | _ \<Rightarrow> False) fs"

definition SearchFilter_filter_queryset ::
  "request \<Rightarrow> task list \<Rightarrow> 's view \<Rightarrow> task list" where
  "SearchFilter_filter_queryset r qs v =
     (if search_fields v = [] \<or> get_search_terms r = [] then qs
      else filter (\<lambda>t. list_all (term_matches (search_fields v) t) (get_search_terms r)) qs)"

fun backend_filter_queryset ::
  "filter_backend \<Rightarrow> request \<Rightarrow> task list \<Rightarrow> 's view \<Rightarrow> task list" where
  "backend_filter_queryset DjangoFilterBackend r qs v = DjangoFilterBackend_filter_queryset r qs v"
| "backend_filter_queryset SearchFilter r qs v = SearchFilter_filter_queryset r qs v"

text \<open>\<^verbatim>\<open>GenericAPIView.filter_queryset\<close>: the backends in turn.\<close>

definition filter_queryset :: "'s view \<Rightarrow> request \<Rightarrow> task list \<Rightarrow> task list" where
  "filter_queryset v r qs = foldl (\<lambda>q b. backend_filter_queryset b r q v) qs (filter_backends v)"

section \<open>The task view set\<close>

text \<open>\<^verbatim>\<open>tasks/views.py\<close> lines 12 to 17: the class attributes. The serializer is
  assigned to \<^verbatim>\<open>serialzer_class\<close>; \<^verbatim>\<open>serializer_class\<close> stays as inherited.\<close>

definition TaskViewSet :: "serializer \<Rightarrow> serializer view" where
  "TaskViewSet TaskSerializer =
     \<lparr>serializer_class = None,
      permission_classes = [IsAuthenticated, IsOwnerPermission],
      filter_backends = [DjangoFilterBackend, SearchFilter],
      filterset_fields = [''completed'', ''due_date''],
      search_fields = [''title'', ''description''],
      serialzer_class = Some TaskSerializer\<rparr>"

text \<open>
  Lines 20 and 21, \<^verbatim>\<open>Task.objects.filter(user=self.request.user)\<close>: the rows whose owner
  is the caller. The anonymous user is no value of the owner column and the lookup
  raises \<^verbatim>\<open>TypeError\<close>.
\<close>

definition get_queryset :: "request \<Rightarrow> db \<Rightarrow> exn + task list" where
  "get_queryset r st =
     (case request_user r of
        None \<Rightarrow> Inl TypeError
      | Some u \<Rightarrow> Inr (filter (\<lambda>t. user t = u) (tasks st)))"

definition user_val :: "nat option \<Rightarrow> val" where
  "user_val u = (case u of None \<Rightarrow> VAnonymousUser | Some n \<Rightarrow> VUser n)"

text \<open>Lines 23 and 24, \<^verbatim>\<open>serializer.save(user=self.request.user)\<close>.\<close>

definition perform_create :: "request \<Rightarrow> bound_serializer \<Rightarrow> db \<Rightarrow> exn + (task \<times> db)" where
  "perform_create r ser st = save ser [''user'' \<mapsto> user_val (request_user r)] st"

text \<open>Inherited: \<^verbatim>\<open>perform_update\<close> saves with no keyword argument, \<^verbatim>\<open>perform_destroy\<close>
  deletes the row.\<close>

definition perform_update :: "bound_serializer \<Rightarrow> db \<Rightarrow> exn + (task \<times> db)" where
  "perform_update ser st = save ser Map.empty st"

definition perform_destroy :: "task \<Rightarrow> db \<Rightarrow> db" where
  "perform_destroy obj st = st\<lparr>tasks := filter (\<lambda>t. task_id t \<noteq> task_id obj) (tasks st)\<rparr>"

text \<open>\<^verbatim>\<open>get_object_or_404(queryset, pk=pk)\<close>.\<close>

definition get_object_or_404 :: "task list \<Rightarrow> nat \<Rightarrow> exn + task" where
  "get_object_or_404 qs pk =
     (case filter (\<lambda>t. task_id t = pk) qs of
        [] \<Rightarrow> Inl Http404
      | [t] \<Rightarrow> Inr t
      | _ \<Rightarrow> Inl MultipleObjectsReturned)"

text \<open>\<^verbatim>\<open>GenericAPIView.get_object\<close>: the filtered query set of the view, the lookup by
  primary key, then the object-level permissions.\<close>

definition get_object :: "serializer view \<Rightarrow> request \<Rightarrow> nat \<Rightarrow> db \<Rightarrow> exn + task" where
  "get_object v r pk st =
     (case get_queryset r st of
        Inl e \<Rightarrow> Inl e
      | Inr qs \<Rightarrow>
          (case get_object_or_404 (filter_queryset v r qs) pk of
             Inl e \<Rightarrow> Inl e
           | Inr obj \<Rightarrow>
               (case check_object_permissions v r obj of
                  Inl e \<Rightarrow> Inl e
                | Inr _ \<Rightarrow> Inr obj)))"

text \<open>
  The actions of \<^verbatim>\<open>ModelViewSet\<close> (\<^verbatim>\<open>rest_framework.mixins\<close>), with the hooks of
  \<^verbatim>\<open>TaskViewSet\<close>. Each returns the response or the exception raised, and the database
  after it. No pagination class is configured, so \<^verbatim>\<open>list\<close> serializes the whole
  query set.
\<close>

definition list_action ::
  "serializer view \<Rightarrow> request \<Rightarrow> db \<Rightarrow> (exn + response) \<times> db" where
  "list_action v r st =
     (case get_queryset r st of
        Inl e \<Rightarrow> (Inl e, st)
      | Inr qs \<Rightarrow>
          (let queryset = filter_queryset v r qs in
           case get_serializer_class v of
             Inl e \<Rightarrow> (Inl e, st)
           | Inr s \<Rightarrow>
               (Inr (Response HTTP_200_OK (DictList (map (to_representation s) queryset))), st)))"

definition create_action ::
  "serializer view \<Rightarrow> request \<Rightarrow> db \<Rightarrow> (exn + response) \<times> db" where
  "create_action v r st =
     (case get_serializer_class v of
        Inl e \<Rightarrow> (Inl e, st)
      | Inr s \<Rightarrow>
          (case run_validation s (data r) False None of
             Inl errs \<Rightarrow> (Inl (ValidationError errs), st)
           | Inr vd \<Rightarrow>
               (case perform_create r \<lparr>bound_instance = None, validated_data = vd\<rparr> st of
                  Inl e \<Rightarrow> (Inl e, st)
                | Inr (t, st') \<Rightarrow>
                    (Inr (Response HTTP_201_CREATED (Dict (to_representation s t))), st'))))"

definition retrieve_action ::
  "serializer view \<Rightarrow> request \<Rightarrow> nat \<Rightarrow> db \<Rightarrow> (exn + response) \<times> db" where
  "retrieve_action v r pk st =
     (case get_object v r pk st of
        Inl e \<Rightarrow> (Inl e, st)
      | Inr obj \<Rightarrow>
          (case get_serializer_class v of
             Inl e \<Rightarrow> (Inl e, st)
           | Inr s \<Rightarrow> (Inr (Response HTTP_200_OK (Dict (to_representation s obj))), st)))"

definition update_action ::
  "serializer view \<Rightarrow> request \<Rightarrow> nat \<Rightarrow> bool \<Rightarrow> db \<Rightarrow> (exn + response) \<times> db" where
  "update_action v r pk partial st =
     (case get_object v r pk st of
        Inl e \<Rightarrow> (Inl e, st)
      | Inr obj \<Rightarrow>
          (case get_serializer_class v of
             Inl e \<Rightarrow> (Inl e, st)
           | Inr s \<Rightarrow>
               (case run_validation s (data r) partial (Some obj) of
                  Inl errs \<Rightarrow> (Inl (ValidationError errs), st)
                | Inr vd \<Rightarrow>
                    (case perform_update \<lparr>bound_instance = Some obj, validated_data = vd\<rparr> st of
                       Inl e \<Rightarrow> (Inl e, st)
                     | Inr (t, st') \<Rightarrow>
                         (Inr (Response HTTP_200_OK (Dict (to_representation s t))), st')))))"

definition destroy_action ::
  "serializer view \<Rightarrow> request \<Rightarrow> nat \<Rightarrow> db \<Rightarrow> (exn + response) \<times> db" where
  "destroy_action v r pk st =
     (case get_object v r pk st of
        Inl e \<Rightarrow> (Inl e, st)
      | Inr obj \<Rightarrow> (Inr (Response HTTP_204_NO_CONTENT NoContent), perform_destroy obj st))"

text \<open>The routes of the view set, and \<^verbatim>\<open>APIView.dispatch\<close>: the permission check of
  \<^verbatim>\<open>initial\<close>, then the handler.\<close>

datatype action = GET_list | POST_create | GET_retrieve nat | PUT_update nat
  | PATCH_partial_update nat | DELETE_destroy nat

fun handler :: "serializer view \<Rightarrow> action \<Rightarrow> request \<Rightarrow> db \<Rightarrow> (exn + response) \<times> db" where
  "handler v GET_list r st = list_action v r st"
| "handler v POST_create r st = create_action v r st"
| "handler v (GET_retrieve pk) r st = retrieve_action v r pk st"
| "handler v (PUT_update pk) r st = update_action v r pk False st"
| "handler v (PATCH_partial_update pk) r st = update_action v r pk True st"
| "handler v (DELETE_destroy pk) r st = destroy_action v r pk st"

definition dispatch :: "serializer view \<Rightarrow> action \<Rightarrow> request \<Rightarrow> db \<Rightarrow> (exn + response) \<times> db" where
  "dispatch v a r st =
     (case check_permissions v r of
        Inl e \<Rightarrow> (Inl e, st)
      | Inr _ \<Rightarrow> handler v a r st)"

section \<open>Registration\<close>

text \<open>
  \<^verbatim>\<open>users/serializers.py\<close> is not among the sources: the serializer class is a parameter,
  given by its validation (which may consult the user table, for uniqueness) and the
  password hasher it stores passwords with.
\<close>

record user_serializer =
  validate_user :: "kwargs \<Rightarrow> db \<Rightarrow> errors + kwargs"
  make_password :: "string \<Rightarrow> string"

text \<open>
  Modelled from the spec: \<^verbatim>\<open>UserSerializer.save\<close> on an unbound serializer. Section 4.1:
  it persists one new user, with the next identifier, the validated username and email
  and the password in hashed form only.
\<close>

definition UserSerializer_save :: "user_serializer \<Rightarrow> kwargs \<Rightarrow> db \<Rightarrow> user_row \<times> db" where
  "UserSerializer_save S vd st =
     (let u = \<lparr>user_id = next_user_id st,
               username = str_of (vd ''username''),
               email = str_of (vd ''email''),
               password = make_password S (str_of (vd ''password''))\<rparr>
      in (u, st\<lparr>users := users st @ [u], next_user_id := Suc (next_user_id st)\<rparr>))"

text \<open>\<^verbatim>\<open>users/views.py\<close> lines 6 to 8.\<close>

definition RegisterView :: "user_serializer \<Rightarrow> user_serializer view" where
  "RegisterView UserSerializer =
     \<lparr>serializer_class = Some UserSerializer,
      permission_classes = [AllowAny],
      filter_backends = [],
      filterset_fields = [],
      search_fields = [],
      serialzer_class = None\<rparr>"

text \<open>Lines 10 to 21: \<^verbatim>\<open>is_valid(raise_exception=True)\<close> raises the validation error
  before \<^verbatim>\<open>save\<close> is reached.\<close>

definition post :: "user_serializer view \<Rightarrow> request \<Rightarrow> db \<Rightarrow> (exn + response) \<times> db" where
  "post v r st =
     (case get_serializer_class v of
        Inl e \<Rightarrow> (Inl e, st)
      | Inr S \<Rightarrow>
          (case validate_user S (data r) st of
             Inl errs \<Rightarrow> (Inl (ValidationError errs), st)
           | Inr vd \<Rightarrow>
               (let (u, st') = UserSerializer_save S vd st in
                (Inr (Response HTTP_201_CREATED
                       (Dict [(''id'', VInt (user_id u)),
                              (''username'', VStr (username u)),
                              (''email'', VStr (email u))])), st'))))"

definition register :: "user_serializer \<Rightarrow> request \<Rightarrow> db \<Rightarrow> (exn + response) \<times> db" where
  "register UserSerializer r st =
     (case check_permissions (RegisterView UserSerializer) r of
        Inl e \<Rightarrow> (Inl e, st)
      | Inr _ \<Rightarrow> post (RegisterView UserSerializer) r st)"

section \<open>Example inputs\<close>

text \<open>Concrete serializers, a database and requests, used where a statement is
  evaluated. The task serializer accepts a request body as it is and writes out three
  fields; the user serializer requires a username that is not taken.\<close>

definition sample_serializer :: serializer where
  "sample_serializer =
     \<lparr>run_validation = (\<lambda>d partial i. Inr d),
      to_representation = (\<lambda>t. [(''id'', VInt (task_id t)), (''title'', VStr (title t)),
                                 (''completed'', VBool (completed t))])\<rparr>"

definition sample_user_serializer :: user_serializer where
  "sample_user_serializer =
     \<lparr>validate_user = (\<lambda>d st.
        if d ''username'' = None then Inl [(''username'', [''This field is required.''])]
        else if list_ex (\<lambda>u. username u = str_of (d ''username'')) (users st)
        then Inl [(''username'', [''A user with that username already exists.''])]
        else Inr d),
      make_password = (\<lambda>p. ''hashed:'' @ p)\<rparr>"

definition sample_db :: db where
  "sample_db =
     \<lparr>tasks = [\<lparr>task_id = 11, user = 5, title = ''Buy milk'', description = ''two litres'',
                 due_date = Some 20, completed = True\<rparr>,
               \<lparr>task_id = 12, user = 6, title = ''Call home'', description = [],
                 due_date = None, completed = False\<rparr>],
      users = [], next_task_id = 13, next_user_id = 7\<rparr>"

definition sample_request :: "nat \<Rightarrow> request" where
  "sample_request u = \<lparr>request_user = Some u, data = Map.empty, query_params = Map.empty\<rparr>"

definition sample_registration :: request where
  "sample_registration =
     \<lparr>request_user = None,
      data = [''username'' \<mapsto> VStr ''ada'', ''email'' \<mapsto> VStr ''ada@example.org'',
              ''password'' \<mapsto> VStr ''s3cret''],
      query_params = Map.empty\<rparr>"

definition empty_registration :: request where
  "empty_registration = \<lparr>request_user = None, data = Map.empty, query_params = Map.empty\<rparr>"

section \<open>Filtering and lookup\<close>

lemma backend_filter_subset: "set (backend_filter_queryset b r qs v) \<subseteq> set qs"
  by (cases b) (auto simp: DjangoFilterBackend_filter_queryset_def SearchFilter_filter_queryset_def)

lemma foldl_backends_subset:
  "set (foldl (\<lambda>q b. backend_filter_queryset b r q v) qs bs) \<subseteq> set qs"
proof (induction bs arbitrary: qs)
  case Nil
  then show ?case by simp
next
  case (Cons b bs)
  have "set (foldl (\<lambda>q b. backend_filter_queryset b r q v) (backend_filter_queryset b r qs v) bs)
          \<subseteq> set (backend_filter_queryset b r qs v)"
    by (rule Cons.IH)
  also have "\<dots> \<subseteq> set qs" by (rule backend_filter_subset)
  finally show ?case by simp
qed

lemma filter_queryset_subset: "set (filter_queryset v r qs) \<subseteq> set qs"
  unfolding filter_queryset_def by (rule foldl_backends_subset)

lemma SearchFilter_as_filter:
  "search_fields v \<noteq> [] \<Longrightarrow>
   SearchFilter_filter_queryset r qs v
     = filter (\<lambda>t. list_all (term_matches (search_fields v) t) (get_search_terms r)) qs"
  by (simp add: SearchFilter_filter_queryset_def)

text \<open>The two backends of the view set, as one filter over the rows in their order.\<close>

lemma filter_queryset_TaskViewSet:
  "filter_queryset (TaskViewSet ts) r qs
     = filter (\<lambda>t. exact_match (query_params r) t ''completed''
                  \<and> exact_match (query_params r) t ''due_date''
                  \<and> list_all (term_matches [''title'', ''description''] t) (get_search_terms r)) qs"
  by (simp add: filter_queryset_def TaskViewSet_def SearchFilter_as_filter
      DjangoFilterBackend_filter_queryset_def conj_commute conj_left_commute)

lemma filter_queryset_serializer_class:
  "filter_queryset (v\<lparr>serializer_class := sc\<rparr>) r qs = filter_queryset v r qs"
proof -
  have "backend_filter_queryset b r q (v\<lparr>serializer_class := sc\<rparr>) = backend_filter_queryset b r q v"
    for b q
    by (cases b) (simp_all add: DjangoFilterBackend_filter_queryset_def
        SearchFilter_filter_queryset_def)
  then show ?thesis by (simp add: filter_queryset_def)
qed

text \<open>What the filter configuration of lines 15 to 17 selects for \<open>completed=true\<close>:
  exactly the caller's completed rows that pass the other filters.\<close>

lemma listed_rows_completed:
  assumes "query_params r ''completed'' = Some (VBool True)"
      and "request_user r = Some u"
      and "get_queryset r st = Inr qs"
  shows "set (filter_queryset (TaskViewSet ts) r qs)
           = {t \<in> set (tasks st). user t = u \<and> completed t
                \<and> exact_match (query_params r) t ''due_date''
                \<and> list_all (\<lambda>w. icontains (title t) w \<or> icontains (description t) w)
                     (get_search_terms r)}"
  using assms
  by (auto simp: filter_queryset_TaskViewSet get_queryset_def exact_match_def task_field_def
      term_matches_def list_all_iff)

lemma search_examples:
  "icontains ''Buy Milk'' ''milk''" "\<not> icontains ''Buy Milk'' ''tea''"
  "split_terms [] ''buy,  milk now'' = [''buy'', ''milk'', ''now'']"
  by (simp_all add: icontains_def lower_def is_sep_def)






section \<open>The view set as configured\<close>

lemma get_serializer_class_TaskViewSet: "get_serializer_class (TaskViewSet ts) = Inl AssertionError"
  by (simp add: get_serializer_class_def TaskViewSet_def)

lemma check_permissions_TaskViewSet:
  "check_permissions (TaskViewSet ts) r =
     (if request_user r = None then Inl NotAuthenticated else Inr ())"
  by (simp add: check_permissions_def TaskViewSet_def IsAuthenticated_has_permission_def
      BasePermission_has_permission_def permission_denied_def)

lemma has_object_permission_True: "has_object_permission p r v obj"
  by (cases p) (simp_all add: IsOwnerPermission_has_object_permission_def
      BasePermission_has_object_permission_def)

lemma check_object_permissions_Inr: "check_object_permissions v r obj = Inr ()"
  by (simp add: check_object_permissions_def list_all_iff has_object_permission_True)

lemma serializing_actions_keep_state:
  "snd (dispatch (TaskViewSet ts) GET_list r st) = st"
  "snd (dispatch (TaskViewSet ts) POST_create r st) = st"
  "snd (dispatch (TaskViewSet ts) (GET_retrieve pk) r st) = st"
  "snd (dispatch (TaskViewSet ts) (PUT_update pk) r st) = st"
  "snd (dispatch (TaskViewSet ts) (PATCH_partial_update pk) r st) = st"
  by (simp_all add: dispatch_def list_action_def create_action_def retrieve_action_def
      update_action_def get_serializer_class_TaskViewSet split: sum.splits)

section \<open>Primary keys stay unique\<close>

text \<open>Unique primary keys, all below the next key, are an invariant of every route of a
  generic view over the task table, whatever its attributes.\<close>

lemma set_attrs_task_id:
  assumes "set_attrs i kw = Inr t"
  shows "task_id t = task_id i"
proof (cases "kw ''user''")
  case None
  with assms show ?thesis by (auto simp: set_attrs_def)
next
  case (Some x)
  with assms show ?thesis by (cases x) (auto simp: set_attrs_def)
qed

lemma Task_objects_create_appends:
  assumes "Task_objects_create kw st = Inr (t, st')"
  shows "st' = st\<lparr>tasks := tasks st @ [t], next_task_id := Suc (next_task_id st)\<rparr>"
    and "task_id t = next_task_id st"
proof -
  obtain u where u: "kw ''user'' = Some (VUser u)"
  proof (cases "kw ''user''")
    case None
    with assms show ?thesis by (simp add: Task_objects_create_def)
  next
    case (Some x)
    with assms that show ?thesis by (cases x) (simp_all add: Task_objects_create_def)
  qed
  from assms u show "st' = st\<lparr>tasks := tasks st @ [t], next_task_id := Suc (next_task_id st)\<rparr>"
    by (auto simp: Task_objects_create_def Let_def)
  from assms u show "task_id t = next_task_id st"
    by (auto simp: Task_objects_create_def Let_def)
qed

lemma map_replace_ids:
  "map task_id (map (\<lambda>x. if task_id x = task_id t then t else x) xs) = map task_id xs"
  by (induction xs) auto

lemma save_keeps_ids_unique:
  assumes "distinct (map task_id (tasks st))"
      and "list_all (\<lambda>t. task_id t < next_task_id st) (tasks st)"
      and "save ser kw st = Inr (t, st')"
  shows "distinct (map task_id (tasks st'))
       \<and> list_all (\<lambda>t. task_id t < next_task_id st') (tasks st')"
proof (cases "bound_instance ser")
  case None
  with assms(3) have c: "Task_objects_create (validated_data ser ++ kw) st = Inr (t, st')"
    by (simp add: save_def)
  note st' = Task_objects_create_appends(1) [OF c] and t = Task_objects_create_appends(2) [OF c]
  from assms(2) have "next_task_id st \<notin> task_id ` set (tasks st)"
    by (auto simp: list_all_iff)
  with assms(1,2) t show ?thesis
    unfolding st' by (auto simp: list_all_iff less_Suc_eq)
next
  case (Some i)
  with assms(3) have u: "ModelSerializer_update i (validated_data ser ++ kw) st = Inr (t, st')"
    by (simp add: save_def)
  then obtain t' where "set_attrs i (validated_data ser ++ kw) = Inr t'"
    by (cases "set_attrs i (validated_data ser ++ kw)") (simp_all add: ModelSerializer_update_def)
  with u have st': "st' = st\<lparr>tasks := map (\<lambda>x. if task_id x = task_id t then t else x) (tasks st)\<rparr>"
    by (auto simp: ModelSerializer_update_def)
  have "list_all (\<lambda>x. task_id x < next_task_id st)
          (map (\<lambda>x. if task_id x = task_id t then t else x) (tasks st))"
    using assms(2) by (auto simp: list_all_iff)
  moreover have "map task_id (map (\<lambda>x. if task_id x = task_id t then t else x) (tasks st))
      = map task_id (tasks st)"
    by (rule map_replace_ids)
  ultimately show ?thesis
    using assms(1) unfolding st' by (simp del: map_map)
qed

lemma dispatch_keeps_ids_unique:
  assumes "distinct (map task_id (tasks st))"
      and "list_all (\<lambda>t. task_id t < next_task_id st) (tasks st)"
  shows "distinct (map task_id (tasks (snd (dispatch v a r st))))
       \<and> list_all (\<lambda>t. task_id t < next_task_id (snd (dispatch v a r st)))
           (tasks (snd (dispatch v a r st)))"
proof -
  let ?ok = "\<lambda>s. distinct (map task_id (tasks s))
       \<and> list_all (\<lambda>t. task_id t < next_task_id s) (tasks s)"
  have ok: "?ok st" using assms by simp
  have destroy: "?ok (perform_destroy obj st)" for obj
    using assms by (auto simp: perform_destroy_def list_all_iff distinct_map_filter)
  have create: "?ok (snd (create_action v r st))"
  proof (cases "get_serializer_class v")
    case (Inl e)
    with ok show ?thesis by (simp add: create_action_def)
  next
    case s: (Inr s)
    show ?thesis
    proof (cases "run_validation s (data r) False None")
      case (Inl errs)
      with ok s show ?thesis by (simp add: create_action_def)
    next
      case vd: (Inr vd)
      show ?thesis
      proof (cases "perform_create r \<lparr>bound_instance = None, validated_data = vd\<rparr> st")
        case (Inl e)
        with ok s vd show ?thesis by (simp add: create_action_def)
      next
        case (Inr p)
        obtain t st' where p: "p = (t, st')" by (cases p)
        with Inr have "save \<lparr>bound_instance = None, validated_data = vd\<rparr>
            [''user'' \<mapsto> user_val (request_user r)] st = Inr (t, st')"
          by (simp add: perform_create_def)
        from save_keeps_ids_unique [OF assms this] s vd Inr p show ?thesis
          by (simp add: create_action_def)
      qed
    qed
  qed
  have update: "?ok (snd (update_action v r pk partial st))" for pk partial
  proof (cases "get_object v r pk st")
    case (Inl e)
    with ok show ?thesis by (simp add: update_action_def)
  next
    case obj: (Inr obj)
    show ?thesis
    proof (cases "get_serializer_class v")
      case (Inl e)
      with ok obj show ?thesis by (simp add: update_action_def)
    next
      case s: (Inr s)
      show ?thesis
      proof (cases "run_validation s (data r) partial (Some obj)")
        case (Inl errs)
        with ok obj s show ?thesis by (simp add: update_action_def)
      next
        case vd: (Inr vd)
        show ?thesis
        proof (cases "perform_update \<lparr>bound_instance = Some obj, validated_data = vd\<rparr> st")
          case (Inl e)
          with ok obj s vd show ?thesis by (simp add: update_action_def)
        next
          case (Inr p)
          obtain t st' where p: "p = (t, st')" by (cases p)
          with Inr have "save \<lparr>bound_instance = Some obj, validated_data = vd\<rparr> Map.empty st
              = Inr (t, st')"
            by (simp add: perform_update_def)
          from save_keeps_ids_unique [OF assms this] obj s vd Inr p show ?thesis
            by (simp add: update_action_def)
        qed
      qed
    qed
  qed
  have h: "?ok (snd (handler v a r st))"
  proof (cases a)
    case GET_list
    with ok show ?thesis by (simp add: list_action_def Let_def split: sum.splits)
  next
    case POST_create
    with create show ?thesis by simp
  next
    case (GET_retrieve pk)
    with ok show ?thesis by (simp add: retrieve_action_def split: sum.splits)
  next
    case (PUT_update pk)
    with update show ?thesis by simp
  next
    case (PATCH_partial_update pk)
    with update show ?thesis by simp
  next
    case (DELETE_destroy pk)
    with ok destroy show ?thesis by (simp add: destroy_action_def split: sum.splits)
  qed
  show ?thesis
  proof (cases "check_permissions v r")
    case (Inl e)
    with ok show ?thesis by (simp add: dispatch_def)
  next
    case (Inr x)
    with h show ?thesis by (simp add: dispatch_def)
  qed
qed

section \<open>Ownership isolation\<close>



text \<open>The owner's own delete goes through: the isolation above is not the view refusing
  everything.\<close>

lemma owner_can_destroy:
  "dispatch (TaskViewSet ts) (DELETE_destroy 11) (sample_request 5) sample_db
     = (Inr (Response 204 NoContent), sample_db\<lparr>tasks := tl (tasks sample_db)\<rparr>)"
  by (simp add: dispatch_def check_permissions_TaskViewSet sample_request_def destroy_action_def
      get_object_def get_queryset_def sample_db_def filter_queryset_TaskViewSet exact_match_def
      get_search_terms_def get_object_or_404_def check_object_permissions_Inr
      perform_destroy_def HTTP_204_NO_CONTENT_def)

section \<open>The serializer attribute\<close>

text \<open>
  Claim C4. The claim is that every task operation parses and renders through the task
  serializer the class is configured with. The class assigns the serializer to
  \<^verbatim>\<open>serialzer_class\<close>, so the attribute the framework reads, \<^verbatim>\<open>serializer_class\<close>, is
  \<^verbatim>\<open>None\<close>: \<^verbatim>\<open>get_serializer_class\<close> fails its assertion, and list, create, retrieve,
  update and partial update of a caller's own task all raise \<^verbatim>\<open>AssertionError\<close> for
  every serializer \<open>ts\<close>.
\<close>

theorem serializer_class_unset:
  "serializer_class (TaskViewSet ts) = None
   \<and> serialzer_class (TaskViewSet ts) = Some ts
   \<and> get_serializer_class (TaskViewSet ts) = Inl AssertionError
   \<and> dispatch (TaskViewSet ts) GET_list (sample_request 5) sample_db
       = (Inl AssertionError, sample_db)
   \<and> dispatch (TaskViewSet ts) POST_create (sample_request 5) sample_db
       = (Inl AssertionError, sample_db)
   \<and> dispatch (TaskViewSet ts) (GET_retrieve 11) (sample_request 5) sample_db
       = (Inl AssertionError, sample_db)
   \<and> dispatch (TaskViewSet ts) (PUT_update 11) (sample_request 5) sample_db
       = (Inl AssertionError, sample_db)
   \<and> dispatch (TaskViewSet ts) (PATCH_partial_update 11) (sample_request 5) sample_db
       = (Inl AssertionError, sample_db)"
proof -
  have attrs: "serializer_class (TaskViewSet ts) = None"
    "serialzer_class (TaskViewSet ts) = Some ts"
    by (simp_all add: TaskViewSet_def)
  have own: "get_object (TaskViewSet ts) (sample_request 5) 11 sample_db = Inr (hd (tasks sample_db))"
    by (simp add: get_object_def get_queryset_def sample_db_def sample_request_def
        filter_queryset_TaskViewSet exact_match_def get_search_terms_def get_object_or_404_def
        check_object_permissions_Inr)
  have perm: "check_permissions (TaskViewSet ts) (sample_request 5) = Inr ()"
    by (simp add: check_permissions_TaskViewSet sample_request_def)
  have q: "get_queryset (sample_request 5) sample_db = Inr [hd (tasks sample_db)]"
    by (simp add: get_queryset_def sample_db_def sample_request_def)
  show ?thesis
    by (simp add: attrs dispatch_def perm create_action_def retrieve_action_def
        list_action_def update_action_def own q get_serializer_class_TaskViewSet)
qed

section \<open>The permission hook\<close>

lemma has_permission_update:
  "has_permission p r (v\<lparr>permission_classes := ps\<rparr>) = has_permission p r v"
  by (cases p) (simp_all add: IsAuthenticated_has_permission_def BasePermission_has_permission_def)

lemma list_all_removeAll: "P x \<Longrightarrow> list_all P (removeAll x xs) = list_all P xs"
  by (induction xs) auto

lemma check_permissions_without_hook:
  "check_permissions (v\<lparr>permission_classes := removeAll IsOwnerPermission (permission_classes v)\<rparr>) r
     = check_permissions v r"
  by (simp add: check_permissions_def list_all_removeAll BasePermission_has_permission_def
      has_permission_update)

lemma backend_filter_permission_classes:
  "backend_filter_queryset b r qs (v\<lparr>permission_classes := ps\<rparr>) = backend_filter_queryset b r qs v"
  by (cases b) (simp_all add: DjangoFilterBackend_filter_queryset_def SearchFilter_filter_queryset_def)

lemma filter_queryset_permission_classes:
  "filter_queryset (v\<lparr>permission_classes := ps\<rparr>) r qs = filter_queryset v r qs"
  by (simp add: filter_queryset_def backend_filter_permission_classes)

lemma get_serializer_class_permission_classes:
  "get_serializer_class (v\<lparr>permission_classes := ps\<rparr>) = get_serializer_class v"
  by (simp add: get_serializer_class_def)

lemma get_object_permission_classes:
  "get_object (v\<lparr>permission_classes := ps\<rparr>) r pk st = get_object v r pk st"
  by (simp add: get_object_def filter_queryset_permission_classes check_object_permissions_Inr
      cong: sum.case_cong)

lemma handler_permission_classes:
  "handler (v\<lparr>permission_classes := ps\<rparr>) a r st = handler v a r st"
  by (cases a) (simp_all add: list_action_def create_action_def retrieve_action_def
      update_action_def destroy_action_def filter_queryset_permission_classes
      get_serializer_class_permission_classes get_object_permission_classes cong: sum.case_cong)

lemma dispatch_without_hook:
  "dispatch (w\<lparr>permission_classes := removeAll IsOwnerPermission (permission_classes w)\<rparr>) a r st
     = dispatch w a r st"
  by (simp add: dispatch_def check_permissions_without_hook handler_permission_classes
      cong: sum.case_cong)

text \<open>
  Claim C5. The object-level hook of \<^verbatim>\<open>IsOwnerPermission\<close> returns what the inherited
  \<^verbatim>\<open>BasePermission.has_object_permission\<close> returns, for every request, view and object.
  It restricts nothing: for every view, the object-permission check and every route
  behave the same with \<^verbatim>\<open>IsOwnerPermission\<close> removed from \<^verbatim>\<open>permission_classes\<close>; for the
  task view set that is the list \<^verbatim>\<open>[IsAuthenticated]\<close>.
\<close>

theorem IsOwnerPermission_noop:
  "IsOwnerPermission_has_object_permission r v obj = BasePermission_has_object_permission r v obj
   \<and> check_object_permissions
        (v\<lparr>permission_classes := removeAll IsOwnerPermission (permission_classes v)\<rparr>) r obj
       = check_object_permissions v r obj
   \<and> dispatch (w\<lparr>permission_classes := removeAll IsOwnerPermission (permission_classes w)\<rparr>) a r st
       = dispatch w a r st
   \<and> dispatch ((TaskViewSet ts)\<lparr>permission_classes := [IsAuthenticated]\<rparr>) a r st
       = dispatch (TaskViewSet ts) a r st"
proof -
  have "removeAll IsOwnerPermission (permission_classes (TaskViewSet ts)) = [IsAuthenticated]"
    by (simp add: TaskViewSet_def)
  with dispatch_without_hook [of "TaskViewSet ts" a r st]
  have "dispatch ((TaskViewSet ts)\<lparr>permission_classes := [IsAuthenticated]\<rparr>) a r st
       = dispatch (TaskViewSet ts) a r st"
    by simp
  then show ?thesis
    by (simp add: IsOwnerPermission_has_object_permission_def dispatch_without_hook
        check_object_permissions_Inr)
qed

section \<open>The owner under update\<close>

lemma set_attrs_keeps_owner:
  assumes "kw ''user'' = None" and "set_attrs i kw = Inr t"
  shows "user t = user i \<and> task_id t = task_id i"
  using assms by (auto simp: set_attrs_def)

text \<open>With the serializer under the attribute the framework reads, an update keeps
  every owner as long as the serializer's validated data never holds \<open>user\<close> (the owner
  is read-only in it).\<close>

lemma get_object_in_tasks:
  assumes "get_object v r pk st = Inr obj"
  shows "obj \<in> set (tasks st) \<and> task_id obj = pk"
proof -
  from assms obtain u where u: "request_user r = Some u"
    by (cases "request_user r") (simp_all add: get_object_def get_queryset_def)
  let ?qs = "filter_queryset v r (filter (\<lambda>t. user t = u) (tasks st))"
  from assms u have "get_object_or_404 ?qs pk = Inr obj"
    by (cases "get_object_or_404 ?qs pk")
       (simp_all add: get_object_def get_queryset_def check_object_permissions_Inr)
  then have "filter (\<lambda>t. task_id t = pk) ?qs = [obj]"
    by (cases "filter (\<lambda>t. task_id t = pk) ?qs" rule: list.exhaust[case_names Nil Cons])
       (auto simp: get_object_or_404_def split: list.splits)
  then have "obj \<in> set (filter (\<lambda>t. task_id t = pk) ?qs)" by simp
  then have "obj \<in> set ?qs" "task_id obj = pk" by auto
  with filter_queryset_subset [of v r "filter (\<lambda>t. user t = u) (tasks st)"]
  show ?thesis by auto
qed

lemma replace_keeps_owners:
  assumes "distinct (map task_id xs)" and "obj \<in> set xs"
      and "task_id t = task_id obj" and "user t = user obj"
  shows "map (\<lambda>x. (task_id x, user x)) (map (\<lambda>x. if task_id x = task_id t then t else x) xs)
           = map (\<lambda>x. (task_id x, user x)) xs"
proof -
  have "(if task_id x = task_id t then (task_id t, user t) else (task_id x, user x))
          = (task_id x, user x)" if "x \<in> set xs" for x
  proof (cases "task_id x = task_id t")
    case True
    with assms(1,2,3) that have "x = obj" by (metis distinct_map inj_onD)
    with assms(3,4) True show ?thesis by simp
  next
    case False
    then show ?thesis by simp
  qed
  then show ?thesis by (auto simp: if_distrib [of "\<lambda>y. (task_id y, user y)"])
qed

lemma update_with_serializer_class_keeps_owner:
  assumes "distinct (map task_id (tasks st))"
      and "\<And>d p i vd. run_validation s d p i = Inr vd \<Longrightarrow> vd ''user'' = None"
  shows "map (\<lambda>x. (task_id x, user x))
           (tasks (snd (update_action ((TaskViewSet ts)\<lparr>serializer_class := Some s\<rparr>) r pk partial st)))
         = map (\<lambda>x. (task_id x, user x)) (tasks st)"
proof -
  let ?v = "(TaskViewSet ts)\<lparr>serializer_class := Some s\<rparr>"
  have sc: "get_serializer_class ?v = Inr s" by (simp add: get_serializer_class_def)
  show ?thesis
  proof (cases "get_object ?v r pk st")
    case (Inl e)
    then show ?thesis by (simp add: update_action_def)
  next
    case obj: (Inr obj)
    show ?thesis
    proof (cases "run_validation s (data r) partial (Some obj)")
      case (Inl errs)
      with obj sc show ?thesis by (simp add: update_action_def)
    next
      case vd: (Inr vd)
      from assms(2) [OF vd] have nouser: "vd ''user'' = None" .
      show ?thesis
      proof (cases "set_attrs obj vd")
        case (Inl e)
        with obj sc vd show ?thesis
          by (simp add: update_action_def perform_update_def save_def ModelSerializer_update_def)
      next
        case (Inr t)
        from set_attrs_keeps_owner [OF nouser Inr]
        have k: "task_id t = task_id obj" "user t = user obj" by simp_all
        from get_object_in_tasks [OF obj] have "obj \<in> set (tasks st)" by simp
        from replace_keeps_owners [OF assms(1) this k] obj sc vd Inr show ?thesis
          by (simp add: update_action_def perform_update_def save_def ModelSerializer_update_def
              del: map_map)
      qed
    qed
  qed
qed

text \<open>
  With a serializer that passes \<open>user\<close> through, the same view rewrites the owner: user 5
  hands task 11 to user 6. The inherited \<^verbatim>\<open>perform_update\<close> saves with no keyword
  argument, so, unlike \<^verbatim>\<open>perform_create\<close>, the view does nothing for the owner on this
  path; what an update that is carried out does to the owner is decided by the
  serializer class alone. On the view set as written no update is carried out at all
  (\<open>serializing_actions_keep_state\<close>).
\<close>

lemma update_with_passthrough_serializer_changes_owner:
  "map (\<lambda>x. (task_id x, user x))
     (tasks (snd (update_action ((TaskViewSet ts)\<lparr>serializer_class := Some sample_serializer\<rparr>)
        \<lparr>request_user = Some 5, data = [''user'' \<mapsto> VUser 6], query_params = Map.empty\<rparr>
        11 False sample_db)))
   = [(11, 6), (12, 6)]"
proof -
  let ?v = "(TaskViewSet ts)\<lparr>serializer_class := Some sample_serializer\<rparr>"
  let ?r = "\<lparr>request_user = Some 5, data = [''user'' \<mapsto> VUser 6], query_params = Map.empty\<rparr>"
  have f: "filter_queryset ?v ?r qs = qs" for qs
    by (simp add: filter_queryset_serializer_class filter_queryset_TaskViewSet exact_match_def
        get_search_terms_def)
  have obj: "get_object ?v ?r 11 sample_db = Inr (hd (tasks sample_db))"
    by (simp add: get_object_def get_queryset_def f get_object_or_404_def
        check_object_permissions_Inr sample_db_def)
  have val: "run_validation sample_serializer [''user'' \<mapsto> VUser 6] False (Some (hd (tasks sample_db)))
      = Inr [''user'' \<mapsto> VUser 6]"
    by (simp add: sample_serializer_def)
  have upd: "perform_update \<lparr>bound_instance = Some (hd (tasks sample_db)),
        validated_data = [''user'' \<mapsto> VUser 6]\<rparr> sample_db
      = Inr ((hd (tasks sample_db))\<lparr>user := 6\<rparr>,
             sample_db\<lparr>tasks := [(hd (tasks sample_db))\<lparr>user := 6\<rparr>, last (tasks sample_db)]\<rparr>)"
    by (simp add: perform_update_def save_def ModelSerializer_update_def set_attrs_def
        sample_db_def)
  have "snd (update_action ?v ?r 11 False sample_db)
      = sample_db\<lparr>tasks := [(hd (tasks sample_db))\<lparr>user := 6\<rparr>, last (tasks sample_db)]\<rparr>"
    by (simp add: update_action_def obj get_serializer_class_def val upd)
  then show ?thesis by (simp add: sample_db_def)
qed

section \<open>Registration responses\<close>

lemma check_permissions_RegisterView: "check_permissions (RegisterView S) r = Inr ()"
  by (simp add: check_permissions_def RegisterView_def)

lemma get_serializer_class_RegisterView: "get_serializer_class (RegisterView S) = Inr S"
  by (simp add: get_serializer_class_def RegisterView_def)

lemma UserSerializer_save_appends:
  assumes "UserSerializer_save S vd st = (u, st')"
  shows "st' = st\<lparr>users := users st @ [u], next_user_id := Suc (next_user_id st)\<rparr>"
    and "user_id u = next_user_id st"
    and "username u = str_of (vd ''username'')"
    and "email u = str_of (vd ''email'')"
    and "password u = make_password S (str_of (vd ''password''))"
  using assms by (auto simp: UserSerializer_save_def Let_def)

lemma register_sample:
  "register sample_user_serializer sample_registration sample_db
     = (Inr (Response 201 (Dict [(''id'', VInt 7), (''username'', VStr ''ada''),
                                 (''email'', VStr ''ada@example.org'')])),
        sample_db\<lparr>users := [\<lparr>user_id = 7, username = ''ada'', email = ''ada@example.org'',
                               password = ''hashed:s3cret''\<rparr>],
                   next_user_id := 8\<rparr>)"
  by (simp add: register_def post_def check_permissions_RegisterView
      get_serializer_class_RegisterView sample_user_serializer_def sample_registration_def
      sample_db_def UserSerializer_save_def str_of_def HTTP_201_CREATED_def Let_def)

text \<open>
  Claim C3. When the validator accepts the registration data, the response has status 201
  and its body is the dictionary of exactly \<open>id\<close>, \<open>username\<close> and \<open>email\<close> of the user
  that was appended to the user table; \<open>password\<close> is not a key of it.
\<close>

theorem register_success_response:
  assumes "validate_user S (data r) st = Inr vd"
  shows "\<exists>u body. register S r st
            = (Inr (Response 201 (Dict body)),
               st\<lparr>users := users st @ [u], next_user_id := Suc (next_user_id st)\<rparr>)
          \<and> body = [(''id'', VInt (user_id u)), (''username'', VStr (username u)),
                     (''email'', VStr (email u))]
          \<and> set (map fst body) = {''id'', ''username'', ''email''}
          \<and> ''password'' \<notin> set (map fst body)"
proof -
  obtain u st' where s: "UserSerializer_save S vd st = (u, st')"
    by (cases "UserSerializer_save S vd st")
  have "register S r st
          = (Inr (Response 201 (Dict [(''id'', VInt (user_id u)), (''username'', VStr (username u)),
                     (''email'', VStr (email u))])), st')"
    using assms s
    by (simp add: register_def post_def HTTP_201_CREATED_def check_permissions_RegisterView
        get_serializer_class_RegisterView)
  with UserSerializer_save_appends(1) [OF s] show ?thesis by auto
qed

theorem register_success_response_witness:
  "validate_user sample_user_serializer (data sample_registration) sample_db
     = Inr (data sample_registration)
   \<and> (\<exists>u body. register sample_user_serializer sample_registration sample_db
            = (Inr (Response 201 (Dict body)),
               sample_db\<lparr>users := users sample_db @ [u],
                          next_user_id := Suc (next_user_id sample_db)\<rparr>)
          \<and> body = [(''id'', VInt (user_id u)), (''username'', VStr (username u)),
                     (''email'', VStr (email u))]
          \<and> set (map fst body) = {''id'', ''username'', ''email''}
          \<and> ''password'' \<notin> set (map fst body))"
proof -
  have h: "validate_user sample_user_serializer (data sample_registration) sample_db
     = Inr (data sample_registration)"
    by (simp add: sample_user_serializer_def sample_registration_def sample_db_def)
  from h register_success_response [OF h] show ?thesis by (rule conjI)
qed

text \<open>
  Claim C7. When the validator rejects the registration data with field errors \<open>errs\<close>,
  the view raises \<^verbatim>\<open>ValidationError errs\<close> and the database is unchanged; when it accepts,
  exactly one user row is appended and the task table is unchanged. Saving is reached only
  on the accepting branch.
\<close>

theorem register_atomic:
  "(case validate_user S (data r) st of
      Inl errs \<Rightarrow> register S r st = (Inl (ValidationError errs), st)
    | Inr vd \<Rightarrow>
        (\<exists>u. snd (register S r st)
               = st\<lparr>users := users st @ [u], next_user_id := Suc (next_user_id st)\<rparr>
             \<and> length (users (snd (register S r st))) = Suc (length (users st))
             \<and> tasks (snd (register S r st)) = tasks st))"
proof (cases "validate_user S (data r) st")
  case (Inl errs)
  then show ?thesis
    by (simp add: register_def post_def check_permissions_RegisterView
        get_serializer_class_RegisterView)
next
  case (Inr vd)
  obtain u st' where s: "UserSerializer_save S vd st = (u, st')"
    by (cases "UserSerializer_save S vd st")
  have "snd (register S r st) = st'"
    using Inr s
    by (simp add: register_def post_def check_permissions_RegisterView
        get_serializer_class_RegisterView)
  with UserSerializer_save_appends(1) [OF s] Inr show ?thesis by auto
qed

theorem register_atomic_witness:
  "register sample_user_serializer empty_registration sample_db
     = (Inl (ValidationError [(''username'', [''This field is required.''])]), sample_db)
   \<and> (\<exists>u. snd (register sample_user_serializer sample_registration sample_db)
               = sample_db\<lparr>users := users sample_db @ [u],
                            next_user_id := Suc (next_user_id sample_db)\<rparr>
             \<and> length (users (snd (register sample_user_serializer sample_registration sample_db)))
                 = Suc (length (users sample_db))
             \<and> tasks (snd (register sample_user_serializer sample_registration sample_db))
                 = tasks sample_db)"
proof -
  have bad: "validate_user sample_user_serializer (data empty_registration) sample_db
     = Inl [(''username'', [''This field is required.''])]"
    by (simp add: sample_user_serializer_def empty_registration_def)
  have good: "validate_user sample_user_serializer (data sample_registration) sample_db
     = Inr (data sample_registration)"
    by (simp add: sample_user_serializer_def sample_registration_def sample_db_def)
  show ?thesis
    using register_atomic [of sample_user_serializer empty_registration sample_db]
      register_atomic [of sample_user_serializer sample_registration sample_db]
    by (simp add: bad good)
qed

section \<open>The owner of a created task\<close>

lemma perform_create_forces_owner:
  assumes "request_user r = Some u"
  shows "\<exists>t. perform_create r \<lparr>bound_instance = None, validated_data = vd\<rparr> st
              = Inr (t, st\<lparr>tasks := tasks st @ [t], next_task_id := Suc (next_task_id st)\<rparr>)
            \<and> user t = u \<and> task_id t = next_task_id st
            \<and> title t = str_of (vd ''title'')
            \<and> description t = str_of (vd ''description'')
            \<and> due_date t = (case vd ''due_date'' of Some (VDate d) \<Rightarrow> Some d | _ \<Rightarrow> None)
            \<and> completed t = (case vd ''completed'' of Some (VBool b) \<Rightarrow> b | _ \<Rightarrow> False)"
  using assms
  by (simp add: perform_create_def save_def Task_objects_create_def user_val_def Let_def)

lemma perform_create_spoofed_owner:
  "\<exists>t. perform_create (sample_request 5)
          \<lparr>bound_instance = None,
           validated_data = [''title'' \<mapsto> VStr ''Pay rent'', ''user'' \<mapsto> VUser 6]\<rparr> sample_db
        = Inr (t, sample_db\<lparr>tasks := tasks sample_db @ [t], next_task_id := 14\<rparr>)
      \<and> user t = 5 \<and> title t = ''Pay rent''"
  by (simp add: perform_create_def save_def Task_objects_create_def user_val_def Let_def
      sample_request_def sample_db_def str_of_def)

text \<open>
  Claim C2. The claim is that a create request yields a task owned by the caller, also when
  the body names another owner. The hook does force the owner (the two lemmas above), but
  the create route never reaches it: user 5 posting a title and owner 6 gets
  \<^verbatim>\<open>AssertionError\<close> from \<^verbatim>\<open>get_serializer\<close> and no task is stored.
\<close>

theorem create_raises:
  "dispatch (TaskViewSet ts) POST_create
     \<lparr>request_user = Some 5,
      data = [''title'' \<mapsto> VStr ''Pay rent'', ''user'' \<mapsto> VUser 6],
      query_params = Map.empty\<rparr> sample_db
   = (Inl AssertionError, sample_db)"
  by (simp add: dispatch_def check_permissions_TaskViewSet create_action_def
      get_serializer_class_TaskViewSet)

section \<open>List filters\<close>

text \<open>
  Claim C8. The claim is that \<^verbatim>\<open>list\<close> with \<open>completed=true\<close> returns the caller's completed
  tasks, further restricted by \<open>search\<close>. The rows are selected as claimed
  (\<open>listed_rows_completed\<close>): for user 5 the query set is the completed task 11 and the
  filter keeps it. The response is never built: the route raises \<^verbatim>\<open>AssertionError\<close>
  from \<^verbatim>\<open>get_serializer\<close>.
\<close>

theorem list_completed_raises:
  "get_queryset \<lparr>request_user = Some 5, data = Map.empty,
        query_params = [''completed'' \<mapsto> VBool True]\<rparr> sample_db
     = Inr [hd (tasks sample_db)]
   \<and> filter_queryset (TaskViewSet ts)
       \<lparr>request_user = Some 5, data = Map.empty,
        query_params = [''completed'' \<mapsto> VBool True]\<rparr> [hd (tasks sample_db)]
     = [hd (tasks sample_db)]
   \<and> completed (hd (tasks sample_db))
   \<and> dispatch (TaskViewSet ts) GET_list
       \<lparr>request_user = Some 5, data = Map.empty,
        query_params = [''completed'' \<mapsto> VBool True]\<rparr> sample_db
     = (Inl AssertionError, sample_db)"
  by (simp add: dispatch_def check_permissions_TaskViewSet list_action_def get_queryset_def
      sample_db_def filter_queryset_TaskViewSet exact_match_def task_field_def
      get_search_terms_def get_serializer_class_TaskViewSet)

section \<open>Create and retrieve\<close>

lemma create_with_serializer_class:
  assumes "request_user r = Some u" and "run_validation s (data r) False None = Inr vd"
  shows "\<exists>t. create_action ((TaskViewSet ts)\<lparr>serializer_class := Some s\<rparr>) r st
              = (Inr (Response 201 (Dict (to_representation s t))),
                 st\<lparr>tasks := tasks st @ [t], next_task_id := Suc (next_task_id st)\<rparr>)
            \<and> user t = u"
proof -
  obtain t where t: "perform_create r \<lparr>bound_instance = None, validated_data = vd\<rparr> st
              = Inr (t, st\<lparr>tasks := tasks st @ [t], next_task_id := Suc (next_task_id st)\<rparr>)"
     "user t = u"
    using perform_create_forces_owner [OF assms(1)] by blast
  show ?thesis
    using assms(2) t
    by (auto simp: create_action_def get_serializer_class_def HTTP_201_CREATED_def)
qed

lemma list_with_serializer_class:
  assumes "request_user r = Some u"
  shows "list_action ((TaskViewSet ts)\<lparr>serializer_class := Some s\<rparr>) r st
           = (Inr (Response 200 (DictList (map (to_representation s)
                 (filter_queryset (TaskViewSet ts) r (filter (\<lambda>t. user t = u) (tasks st)))))), st)"
  using assms
  by (simp add: list_action_def get_queryset_def get_serializer_class_def HTTP_200_OK_def
      filter_queryset_serializer_class)

lemma roundtrip_with_serializer_class:
  assumes "request_user r = Some u" and "run_validation s (data r) False None = Inr vd"
      and "next_task_id st \<notin> task_id ` set (tasks st)"
      and "request_user r' = Some u" and "query_params r' = Map.empty"
  shows "\<exists>t st'. create_action ((TaskViewSet ts)\<lparr>serializer_class := Some s\<rparr>) r st
              = (Inr (Response 201 (Dict (to_representation s t))), st')
            \<and> retrieve_action ((TaskViewSet ts)\<lparr>serializer_class := Some s\<rparr>) r' (task_id t) st'
              = (Inr (Response 200 (Dict (to_representation s t))), st')
            \<and> title t = str_of (vd ''title'')
            \<and> description t = str_of (vd ''description'')
            \<and> due_date t = (case vd ''due_date'' of Some (VDate d) \<Rightarrow> Some d | _ \<Rightarrow> None)
            \<and> completed t = (case vd ''completed'' of Some (VBool b) \<Rightarrow> b | _ \<Rightarrow> False)"
proof -
  let ?v = "(TaskViewSet ts)\<lparr>serializer_class := Some s\<rparr>"
  obtain t where t: "perform_create r \<lparr>bound_instance = None, validated_data = vd\<rparr> st
              = Inr (t, st\<lparr>tasks := tasks st @ [t], next_task_id := Suc (next_task_id st)\<rparr>)"
     "user t = u" "task_id t = next_task_id st"
     "title t = str_of (vd ''title'')"
     "description t = str_of (vd ''description'')"
     "due_date t = (case vd ''due_date'' of Some (VDate d) \<Rightarrow> Some d | _ \<Rightarrow> None)"
     "completed t = (case vd ''completed'' of Some (VBool b) \<Rightarrow> b | _ \<Rightarrow> False)"
    using perform_create_forces_owner [OF assms(1), of vd st] by blast
  let ?st' = "st\<lparr>tasks := tasks st @ [t], next_task_id := Suc (next_task_id st)\<rparr>"
  have c: "create_action ?v r st = (Inr (Response 201 (Dict (to_representation s t))), ?st')"
    using assms(2) t(1)
    by (simp add: create_action_def get_serializer_class_def HTTP_201_CREATED_def)
  have nofilter: "filter_queryset ?v r' qs = qs" for qs
    using assms(5)
    by (simp add: filter_queryset_serializer_class filter_queryset_TaskViewSet exact_match_def
        get_search_terms_def)
  have "filter (\<lambda>x. task_id x = task_id t) (filter (\<lambda>x. user x = u) (tasks ?st')) = [t]"
  proof -
    have "\<forall>x \<in> set (tasks st). task_id x \<noteq> task_id t"
      using assms(3) t(3) by (metis imageI)
    then have "filter (\<lambda>x. task_id x = task_id t) (tasks st) = []"
      by (simp add: filter_empty_conv)
    then have "filter (\<lambda>x. task_id x = task_id t) (filter (\<lambda>x. user x = u) (tasks st)) = []"
      by (auto simp: filter_empty_conv)
    then show ?thesis using t(2) by simp
  qed
  then have "get_object ?v r' (task_id t) ?st' = Inr t"
    using assms(4)
    by (simp add: get_object_def get_queryset_def nofilter get_object_or_404_def
        check_object_permissions_Inr)
  then have "retrieve_action ?v r' (task_id t) ?st'
      = (Inr (Response 200 (Dict (to_representation s t))), ?st')"
    by (simp add: retrieve_action_def get_serializer_class_def HTTP_200_OK_def)
  with c t(4-7) show ?thesis by blast
qed

text \<open>
  Claim C9. The claim is that creating a task and retrieving it returns the created
  fields. On the view set as written, create by user 5 raises \<^verbatim>\<open>AssertionError\<close> and
  stores nothing, so the id the task would have had (13) is not found; retrieving a task
  the caller does own (11) raises \<^verbatim>\<open>AssertionError\<close> as well.
\<close>

theorem roundtrip_raises:
  "dispatch (TaskViewSet ts) POST_create
     \<lparr>request_user = Some 5, data = [''title'' \<mapsto> VStr ''Pay rent''],
      query_params = Map.empty\<rparr> sample_db
     = (Inl AssertionError, sample_db)
   \<and> dispatch (TaskViewSet ts) (GET_retrieve 13) (sample_request 5) sample_db
     = (Inl Http404, sample_db)
   \<and> dispatch (TaskViewSet ts) (GET_retrieve 11) (sample_request 5) sample_db
     = (Inl AssertionError, sample_db)"
  by (simp add: dispatch_def check_permissions_TaskViewSet create_action_def retrieve_action_def
      get_object_def get_queryset_def sample_db_def sample_request_def
      filter_queryset_TaskViewSet exact_match_def get_search_terms_def get_object_or_404_def
      get_serializer_class_TaskViewSet check_object_permissions_Inr)

section \<open>The rows of list\<close>

text \<open>
  The rows \<^verbatim>\<open>list\<close> selects are a filter of the task table, in the order the table's
  rows are returned: the view adds no ordering of its own (\<^verbatim>\<open>get_queryset\<close> has no
  \<^verbatim>\<open>order_by\<close>), so the order of a listing is the database's.
\<close>

lemma listed_rows:
  "map_sum id (filter_queryset (TaskViewSet ts) r) (get_queryset r st)
     = (case request_user r of
          None \<Rightarrow> Inl TypeError
        | Some u \<Rightarrow>
            Inr (filter (\<lambda>t. exact_match (query_params r) t ''completed''
                            \<and> exact_match (query_params r) t ''due_date''
                            \<and> list_all (term_matches [''title'', ''description''] t)
                                 (get_search_terms r))
                   (filter (\<lambda>t. user t = u) (tasks st))))"
  by (simp add: get_queryset_def filter_queryset_TaskViewSet split: option.splits)

end
